theory Spec2Isabelle
  imports Main
begin

section \<open>URL shortener: the request handlers of server.js over an explicit store\<close>

text \<open>
  The three routes of \<^verbatim>\<open>server.js\<close> are modelled as functions from the database
  state to a response and the new state. What the handlers read from outside the
  program is an explicit input: the clock, the output of \<^verbatim>\<open>nanoid(7)\<close>, the
  platform's \<^verbatim>\<open>URL\<close> constructor, the configuration taken from
  \<^verbatim>\<open>process.env\<close>, and whether a write statement of the storage engine fails.
  Strings are lists of \<^typ>\<open>char\<close>, read as code units below 256 (Latin-1).
  The \<^verbatim>\<open>logID\<close> echoed in every JSON body comes from the logging middleware
  and is left out of the responses.
\<close>

subsection \<open>Helpers\<close>

datatype exn = TypeError | RangeError | SqliteError

text \<open>
  \<^verbatim>\<open>new URL(str)\<close> is the platform's parser: it returns an object, of which only
  \<^verbatim>\<open>protocol\<close> is read, or throws a TypeError. It is a parameter of the model.
\<close>

record url_object =
  protocol :: string

type_synonym url_constructor = "string \<Rightarrow> exn + url_object"

text \<open>
  \<^verbatim>\<open>function isValidHttpUrl(str) {
    try { const u = new URL(str);
          return u.protocol === 'http:' || u.protocol === 'https:';
    } catch { return false; } }\<close>
  The body of the \<^verbatim>\<open>try\<close> block and the block with its handler are kept
  apart, so that the result type still has room for an exception.
\<close>

definition isValidHttpUrl_try :: "url_constructor \<Rightarrow> string \<Rightarrow> exn + bool" where
  "isValidHttpUrl_try URL str =
     (case URL str of
        Inl e \<Rightarrow> Inl e
      | Inr u \<Rightarrow> Inr (protocol u = ''http:'' \<or> protocol u = ''https:''))"

definition isValidHttpUrl :: "url_constructor \<Rightarrow> string \<Rightarrow> exn + bool" where
  "isValidHttpUrl URL str =
     (case isValidHttpUrl_try URL str of
        Inl e \<Rightarrow> Inr False
      | Inr b \<Rightarrow> Inr b)"

text \<open>
  \<^verbatim>\<open>String.prototype.trim\<close> removes white space and line terminators from both
  ends; below 256 these are TAB, LF, VT, FF, CR, SP and NBSP.
\<close>

definition isWhiteSpace :: "char \<Rightarrow> bool" where
  "isWhiteSpace c = (of_char c \<in> {9, 10, 11, 12, 13, 32, 160 :: nat})"

definition trim :: "string \<Rightarrow> string" where
  "trim s = rev (dropWhile isWhiteSpace (rev (dropWhile isWhiteSpace s)))"

text \<open>
  \<^verbatim>\<open>String.prototype.toLowerCase\<close>: below 256 the letters with a lower-case
  partner are A to Z and U+00C0 to U+00DE without the multiplication sign U+00D7;
  the partner is 32 code points higher.
\<close>

definition lowerChar :: "char \<Rightarrow> char" where
  "lowerChar c =
     (let n = of_char c :: nat in
      if (65 \<le> n \<and> n \<le> 90) \<or> (192 \<le> n \<and> n \<le> 222 \<and> n \<noteq> 215)
      then char_of (n + 32) else c)"

definition toLowerCase :: "string \<Rightarrow> string" where
  "toLowerCase s = map lowerChar s"

text \<open>
  \<^verbatim>\<open>function normalizeCode(input) { return String(input || '').trim().toLowerCase(); }\<close>
  The input is a string or \<^verbatim>\<open>undefined\<close> (\<open>None\<close>).
\<close>

definition normalizeCode :: "string option \<Rightarrow> string" where
  "normalizeCode input =
     toLowerCase (trim (case input of None \<Rightarrow> [] | Some s \<Rightarrow> s))"

subsection \<open>The shortcode pattern\<close>

text \<open>
  The literal \<^verbatim>\<open>/^[a-zA-Z0-9-_]{4,32}$/\<close> of the create route: one character
  class, repeated between 4 and 32 times, anchored at both ends. The class lists three
  ranges and the two single characters \<^verbatim>\<open>-\<close> and \<^verbatim>\<open>_\<close>.
\<close>

datatype class_atom = ClassRange char char | ClassChar char

fun class_matches :: "class_atom list \<Rightarrow> char \<Rightarrow> bool" where
  "class_matches [] c = False"
| "class_matches (ClassRange a b # atoms) c =
     (((of_char a :: nat) \<le> of_char c \<and> (of_char c :: nat) \<le> of_char b) \<or> class_matches atoms c)"
| "class_matches (ClassChar a # atoms) c = (c = a \<or> class_matches atoms c)"

text \<open>\<^verbatim>\<open>^[atoms]{lo,hi}$\<close> run over the whole input, one character at a time.\<close>

fun anchored_repeat :: "class_atom list \<Rightarrow> nat \<Rightarrow> nat \<Rightarrow> string \<Rightarrow> bool" where
  "anchored_repeat atoms lo hi [] = (lo = 0)"
| "anchored_repeat atoms lo hi (c # cs) =
     (0 < hi \<and> class_matches atoms c \<and> anchored_repeat atoms (lo - 1) (hi - 1) cs)"

definition shortcode_class :: "class_atom list" where
  "shortcode_class =
     [ClassRange (CHR ''a'') (CHR ''z''), ClassRange (CHR ''A'') (CHR ''Z''),
      ClassRange (CHR ''0'') (CHR ''9''), ClassChar (CHR ''-''), ClassChar (CHR ''_'')]"

definition shortcode_regex_test :: "string \<Rightarrow> bool" where
  "shortcode_regex_test code = anchored_repeat shortcode_class 4 32 code"

text \<open>
  The pattern in the specification's words: between 4 and 32 characters, each of them
  a letter A to Z or a to z, a digit, an underscore or a hyphen.
\<close>

definition code_alphabet :: string where
  "code_alphabet =
     ''ABCDEFGHIJKLMNOPQRSTUVWXYZabcdefghijklmnopqrstuvwxyz0123456789_-''"

definition matches_code_pattern :: "string \<Rightarrow> bool" where
  "matches_code_pattern s =
     (4 \<le> length s \<and> length s \<le> 32 \<and> list_all (\<lambda>c. c \<in> set code_alphabet) s)"

subsection \<open>Request bodies and configuration\<close>

text \<open>
  A JSON value as far as the create route tells values apart. \<open>JInt\<close> is a number
  for which \<^verbatim>\<open>Number.isInteger\<close> holds, \<open>JNonInt\<close> any other number
  (a fraction, NaN, an infinity).
\<close>

datatype jsval = JUndefined | JNull | JBool bool | JInt int | JNonInt | JStr string | JObject

text \<open>
  \<^verbatim>\<open>const { url, validity, shortcode } = req.body || {};\<close>
  \<open>url\<close> and \<open>shortcode\<close> are strings or absent.
\<close>

record create_body =
  url :: "string option"
  validity :: jsval
  shortcode :: "string option"

text \<open>
  \<^verbatim>\<open>BASE_URL\<close> and \<^verbatim>\<open>Number(DEFAULT_VALIDITY)\<close> as read from
  \<^verbatim>\<open>process.env\<close>; the latter is an integer number of minutes, or \<open>None\<close> when
  the conversion yields NaN (a setting with a fractional number of minutes is not
  covered). \<open>default_config\<close> is the configuration of an empty environment. The
  platform's \<^verbatim>\<open>URL\<close> constructor travels with them.
\<close>

record config =
  BASE_URL :: string
  DEFAULT_VALIDITY :: "int option"
  newURL :: url_constructor

definition default_config :: "url_constructor \<Rightarrow> config" where
  "default_config u = \<lparr>BASE_URL = ''http://localhost:8080'', DEFAULT_VALIDITY = Some 30, newURL = u\<rparr>"

text \<open>
  What one request reads from its surroundings: the wall clock in milliseconds since
  the epoch (\<^verbatim>\<open>Date.now()\<close>, \<^verbatim>\<open>new Date()\<close> and SQLite's
  \<^verbatim>\<open>datetime('now')\<close>, taken as one reading per request), the string
  \<^verbatim>\<open>nanoid(7)\<close> would return, and which write statement, if any, the storage
  engine fails for a reason other than a constraint. The SELECT statements are taken
  to succeed.
\<close>

datatype storage_fault = NoFault | InsertUrlFails | UpdateOnVisitFails | InsertVisitFails

record ambient =
  clock :: int
  nanoid7 :: string
  fault :: storage_fault

text \<open>
  \<^verbatim>\<open>Number.isInteger(validity) && validity > 0 ? validity : Number(DEFAULT_VALIDITY)\<close>
\<close>

definition validityMinutes :: "config \<Rightarrow> jsval \<Rightarrow> int option" where
  "validityMinutes cfg v =
     (case v of
        JInt n \<Rightarrow> if 0 < n then Some n else DEFAULT_VALIDITY cfg
      | _ \<Rightarrow> DEFAULT_VALIDITY cfg)"

text \<open>
  \<^verbatim>\<open>function computeExpiry(minutes) {
    const expiry = new Date(Date.now() + minutes * 60 * 1000);
    return expiry.toISOString(); }\<close>
  A time value is valid up to 8.64e15 milliseconds either side of the epoch;
  \<^verbatim>\<open>toISOString\<close> throws a RangeError on an invalid date, which NaN minutes
  give as well. Inside that range the sum is below \<open>2 ^ 53\<close> and the arithmetic of
  JavaScript's numbers is exact on integers. The ISO string is represented by the
  millisecond it denotes, which \<^verbatim>\<open>new Date(row.expiry_at)\<close> reads back.
\<close>

definition computeExpiry :: "int \<Rightarrow> int option \<Rightarrow> exn + int" where
  "computeExpiry now minutes =
     (case minutes of
        None \<Rightarrow> Inl RangeError
      | Some m \<Rightarrow>
          (let t = now + m * 60 * 1000 in
           if \<bar>t\<bar> \<le> 8640000000000000 then Inr t else Inl RangeError))"

subsection \<open>Database\<close>

text \<open>
  Table \<^verbatim>\<open>urls\<close>, keyed by its primary key \<^verbatim>\<open>code\<close>, and table
  \<^verbatim>\<open>visits\<close> in the order of its autoincremented \<^verbatim>\<open>id\<close>.
  \<^verbatim>\<open>datetime('now')\<close> has a resolution of one second.
\<close>

record url_row =
  long_url :: string
  created_at :: int
  expiry_at :: int
  last_accessed :: "int option"
  clicks :: int

record visit_row =
  code :: string
  ts :: int
  ip :: "string option"
  user_agent :: "string option"
  referrer :: "string option"

record db =
  urls :: "string \<rightharpoonup> url_row"
  visits :: "visit_row list"

definition init_db :: db where
  "init_db = \<lparr>urls = Map.empty, visits = []\<rparr>"

definition datetime_now :: "int \<Rightarrow> int" where
  "datetime_now now = now div 1000"

text \<open>
  What a write statement throws: the message of a primary-key violation contains
  \<^verbatim>\<open>UNIQUE\<close>, which is what the create route's catch block looks for.
\<close>

datatype sqlite_error = UniqueConstraint | OtherFailure

text \<open>\<^verbatim>\<open>INSERT INTO urls (code, long_url, expiry_at) VALUES (@code, @long_url, @expiry_at)\<close>\<close>

definition insertUrl_run ::
  "ambient \<Rightarrow> db \<Rightarrow> string \<Rightarrow> string \<Rightarrow> int \<Rightarrow> sqlite_error + db" where
  "insertUrl_run a d c l e =
     (if fault a = InsertUrlFails then Inl OtherFailure
      else if urls d c \<noteq> None then Inl UniqueConstraint
      else Inr (d\<lparr>urls := (urls d)(c \<mapsto>
             \<lparr>long_url = l, created_at = datetime_now (clock a), expiry_at = e,
              last_accessed = None, clicks = 0\<rparr>)\<rparr>))"

text \<open>\<^verbatim>\<open>SELECT * FROM urls WHERE code = ?\<close>\<close>

definition findByCode_get :: "db \<Rightarrow> string \<Rightarrow> url_row option" where
  "findByCode_get d c = urls d c"

text \<open>
  \<^verbatim>\<open>UPDATE urls SET clicks = clicks + 1, last_accessed = datetime('now') WHERE code = ?\<close>
\<close>

definition updateOnVisit_run :: "ambient \<Rightarrow> db \<Rightarrow> string \<Rightarrow> sqlite_error + db" where
  "updateOnVisit_run a d c =
     (if fault a = UpdateOnVisitFails then Inl OtherFailure
      else case urls d c of
        None \<Rightarrow> Inr d
      | Some r \<Rightarrow> Inr (d\<lparr>urls := (urls d)(c \<mapsto>
            r\<lparr>clicks := clicks r + 1, last_accessed := Some (datetime_now (clock a))\<rparr>)\<rparr>))"

text \<open>\<^verbatim>\<open>INSERT INTO visits (code, ip, user_agent, referrer) VALUES (?, ?, ?, ?)\<close>\<close>

definition insertVisit_run ::
  "ambient \<Rightarrow> db \<Rightarrow> string \<Rightarrow> string option \<Rightarrow> string option \<Rightarrow> string option
     \<Rightarrow> sqlite_error + db" where
  "insertVisit_run a d c i u r =
     (if fault a = InsertVisitFails then Inl OtherFailure
      else Inr (d\<lparr>visits := visits d @
             [\<lparr>code = c, ts = datetime_now (clock a), ip = i, user_agent = u, referrer = r\<rparr>]\<rparr>))"

text \<open>
  \<^verbatim>\<open>SELECT ts, ip, user_agent, referrer FROM visits WHERE code = ?\<close>
  has no ORDER BY: the rows come in the order of the table.
\<close>

record click =
  click_ts :: int
  click_ip :: "string option"
  click_user_agent :: "string option"
  click_referrer :: "string option"

definition click_of :: "visit_row \<Rightarrow> click" where
  "click_of v = \<lparr>click_ts = ts v, click_ip = ip v, click_user_agent = user_agent v,
                 click_referrer = referrer v\<rparr>"

definition getVisits_all :: "db \<Rightarrow> string \<Rightarrow> click list" where
  "getVisits_all d c = map click_of (filter (\<lambda>v. code v = c) (visits d))"

text \<open>
  \<^verbatim>\<open>SELECT COUNT(DISTINCT ip) as uniques FROM visits WHERE code = ?\<close>
  counts the distinct values that are not NULL.
\<close>

definition countUniqueIPs_get :: "db \<Rightarrow> string \<Rightarrow> nat" where
  "countUniqueIPs_get d c =
     length (remdups (List.map_filter ip (filter (\<lambda>v. code v = c) (visits d))))"

subsection \<open>Routes\<close>

record stats =
  stats_code :: string
  longUrl :: string
  createdAt :: int
  expiryAt :: int
  totalClicks :: int
  uniqueVisitors :: nat
  detailedClicks :: "click list"

text \<open>
  The responses of the three routes. \<open>Redirect\<close> carries the string handed to
  \<^verbatim>\<open>res.redirect\<close>. \<open>Uncaught\<close> is an exception that leaves the handler: the
  framework answers it with status 500 and none of the handler's bodies.
\<close>

datatype response =
    Created string int      \<comment> \<open>201, shortLink and expiry\<close>
  | InvalidUrl              \<comment> \<open>400, 'Invalid or missing URL.'\<close>
  | InvalidCodeSyntax       \<comment> \<open>400, 'shortcode must be 4-32 chars, alnum/-,_ only.'\<close>
  | DuplicateCode           \<comment> \<open>409, 'Shortcode already exists.'\<close>
  | CreateFailed            \<comment> \<open>500, 'Could not create short URL.'\<close>
  | NotFound                \<comment> \<open>404, 'Shortcode not found.'\<close>
  | Expired                 \<comment> \<open>410, 'Short link expired.'\<close>
  | Redirect string         \<comment> \<open>\<^verbatim>\<open>res.redirect(row.long_url)\<close>\<close>
  | Stats stats             \<comment> \<open>200, the statistics\<close>
  | Uncaught exn

text \<open>
  \<^verbatim>\<open>let code = normalizeCode(shortcode); ...
  if (!code) code = nanoid(7).toLowerCase();\<close>
\<close>

definition chosen_code :: "ambient \<Rightarrow> create_body \<Rightarrow> string" where
  "chosen_code a body =
     (let c = normalizeCode (shortcode body) in
      if c = [] then toLowerCase (nanoid7 a) else c)"

text \<open>\<^verbatim>\<open>app.post('/shorturls', ...)\<close>\<close>

definition post_shorturls :: "config \<Rightarrow> ambient \<Rightarrow> create_body \<Rightarrow> db \<Rightarrow> response \<times> db" where
  "post_shorturls cfg a body d =
     (case url body of
        None \<Rightarrow> (InvalidUrl, d)
      | Some u \<Rightarrow>
          if u = [] then (InvalidUrl, d)
          else (case isValidHttpUrl (newURL cfg) u of
             Inl e \<Rightarrow> (Uncaught e, d)
           | Inr False \<Rightarrow> (InvalidUrl, d)
           | Inr True \<Rightarrow>
               (case computeExpiry (clock a) (validityMinutes cfg (validity body)) of
                  Inl e \<Rightarrow> (Uncaught e, d)
                | Inr expiry \<Rightarrow>
                    if normalizeCode (shortcode body) \<noteq> []
                       \<and> \<not> shortcode_regex_test (normalizeCode (shortcode body))
                    then (InvalidCodeSyntax, d)
                    else (case insertUrl_run a d (chosen_code a body) u expiry of
                       Inr d' \<Rightarrow> (Created (BASE_URL cfg @ ''/'' @ chosen_code a body) expiry, d')
                     | Inl e \<Rightarrow>
                         if e = UniqueConstraint then (DuplicateCode, d)
                         else (CreateFailed, d)))))"

text \<open>
  What the redirect route reads from the request: \<^verbatim>\<open>req.ip\<close> and the two headers.
  \<^verbatim>\<open>h || null\<close> turns a missing and an empty header into NULL.
\<close>

record visitor =
  req_ip :: "string option"
  header_user_agent :: "string option"
  header_referer :: "string option"

definition or_null :: "string option \<Rightarrow> string option" where
  "or_null h = (case h of None \<Rightarrow> None | Some s \<Rightarrow> if s = [] then None else Some s)"

text \<open>\<^verbatim>\<open>app.get('/:code', ...)\<close>\<close>

definition get_code :: "ambient \<Rightarrow> string \<Rightarrow> visitor \<Rightarrow> db \<Rightarrow> response \<times> db" where
  "get_code a param v d =
     (let c = normalizeCode (Some param) in
      case findByCode_get d c of
        None \<Rightarrow> (NotFound, d)
      | Some row \<Rightarrow>
          if expiry_at row < clock a then (Expired, d)
          else (case updateOnVisit_run a d c of
             Inl e \<Rightarrow> (Uncaught SqliteError, d)
           | Inr d1 \<Rightarrow>
               (case insertVisit_run a d1 c (req_ip v) (or_null (header_user_agent v))
                       (or_null (header_referer v)) of
                  Inl e \<Rightarrow> (Uncaught SqliteError, d1)
                | Inr d2 \<Rightarrow> (Redirect (long_url row), d2))))"

text \<open>\<^verbatim>\<open>app.get('/shorturls/:code', ...)\<close>\<close>

definition get_shorturls_code :: "string \<Rightarrow> db \<Rightarrow> response \<times> db" where
  "get_shorturls_code param d =
     (let c = normalizeCode (Some param) in
      case findByCode_get d c of
        None \<Rightarrow> (NotFound, d)
      | Some row \<Rightarrow>
          (Stats \<lparr>stats_code = c, longUrl = long_url row, createdAt = created_at row,
                  expiryAt = expiry_at row, totalClicks = clicks row,
                  uniqueVisitors = countUniqueIPs_get d c,
                  detailedClicks = getVisits_all d c\<rparr>, d))"

subsection \<open>Runs of requests\<close>

datatype request =
    PostShorturls create_body
  | GetCode string visitor
  | GetShorturlsCode string

fun handle :: "config \<Rightarrow> ambient \<times> request \<Rightarrow> db \<Rightarrow> response \<times> db" where
  "handle cfg (a, PostShorturls body) d = post_shorturls cfg a body d"
| "handle cfg (a, GetCode param v) d = get_code a param v d"
| "handle cfg (a, GetShorturlsCode param) d = get_shorturls_code param d"

text \<open>The database after a list of requests, served one after the other.\<close>

fun final_db :: "config \<Rightarrow> db \<Rightarrow> (ambient \<times> request) list \<Rightarrow> db" where
  "final_db cfg d [] = d"
| "final_db cfg d (e # es) = final_db cfg (snd (handle cfg e d)) es"

text \<open>
  The redirect requests for code \<open>c\<close> that were answered with a redirect, in the order
  of the run.
\<close>

fun is_redirect :: "response \<Rightarrow> bool" where
  "is_redirect (Redirect l) = True"
| "is_redirect r = False"

fun redirected_for :: "string \<Rightarrow> ambient \<times> request \<Rightarrow> response \<Rightarrow> (ambient \<times> visitor) list" where
  "redirected_for c (a, GetCode param v) r =
     (if normalizeCode (Some param) = c \<and> is_redirect r then [(a, v)] else [])"
| "redirected_for c (a, q) r = []"

fun redirects :: "config \<Rightarrow> db \<Rightarrow> (ambient \<times> request) list \<Rightarrow> string \<Rightarrow> (ambient \<times> visitor) list" where
  "redirects cfg d [] c = []"
| "redirects cfg d (e # es) c =
     redirected_for c e (fst (handle cfg e d)) @ redirects cfg (snd (handle cfg e d)) es c"

text \<open>
  The rows of \<^verbatim>\<open>visits\<close> for one code, and the row the redirect route inserts for
  a request it redirects.
\<close>

definition visits_for :: "db \<Rightarrow> string \<Rightarrow> visit_row list" where
  "visits_for d c = filter (\<lambda>v. code v = c) (visits d)"

definition visit_of :: "string \<Rightarrow> ambient \<times> visitor \<Rightarrow> visit_row" where
  "visit_of c x =
     \<lparr>code = c, ts = datetime_now (clock (fst x)), ip = req_ip (snd x),
      user_agent = or_null (header_user_agent (snd x)),
      referrer = or_null (header_referer (snd x))\<rparr>"

text \<open>
  \<^verbatim>\<open>nanoid(7)\<close> returns seven symbols of the library's URL-safe alphabet, which is
  the alphabet of the shortcode pattern.
\<close>

definition nanoid_result :: "string \<Rightarrow> bool" where
  "nanoid_result g = (length g = 7 \<and> list_all (\<lambda>c. c \<in> set code_alphabet) g)"

text \<open>
  The redirect requests for code \<open>c\<close> that ended in the exception of a failed insert
  into the visit table: the counter update before it has been made, no redirect was
  sent. They are listed in the order of the run.
\<close>

fun half_recorded_for :: "string \<Rightarrow> ambient \<times> request \<Rightarrow> response \<Rightarrow> (ambient \<times> visitor) list" where
  "half_recorded_for c (a, GetCode param v) r =
     (if normalizeCode (Some param) = c \<and> fault a = InsertVisitFails \<and> r = Uncaught SqliteError
      then [(a, v)] else [])"
| "half_recorded_for c (a, q) r = []"

fun half_recorded :: "config \<Rightarrow> db \<Rightarrow> (ambient \<times> request) list \<Rightarrow> string \<Rightarrow> (ambient \<times> visitor) list" where
  "half_recorded cfg d [] c = []"
| "half_recorded cfg d (e # es) c =
     half_recorded_for c e (fst (handle cfg e d)) @ half_recorded cfg (snd (handle cfg e d)) es c"

text \<open>The counter of a code, 0 when the code has no link.\<close>

definition clicks_of :: "db \<Rightarrow> string \<Rightarrow> int" where
  "clicks_of d c = (case urls d c of None \<Rightarrow> 0 | Some r \<Rightarrow> clicks r)"

subsection \<open>Data of the worked examples\<close>

text \<open>
  What \<^verbatim>\<open>new URL\<close> returns on the two URLs of the examples; on the other strings
  used there, none of which is a URL, it throws.
\<close>

definition example_URL :: url_constructor where
  "example_URL s =
     (if s = ''https://example.com/page'' then Inr \<lparr>protocol = ''https:''\<rparr>
      else if s = ''ftp://example.com/file'' then Inr \<lparr>protocol = ''ftp:''\<rparr>
      else Inl TypeError)"

definition example_config :: config where
  "example_config = default_config example_URL"

definition at_time :: "int \<Rightarrow> storage_fault \<Rightarrow> ambient" where
  "at_time t f = \<lparr>clock = t, nanoid7 = ''V1StGXR'', fault = f\<rparr>"

definition example_body :: "string option \<Rightarrow> jsval \<Rightarrow> create_body" where
  "example_body sc v = \<lparr>url = Some ''https://example.com/page'', validity = v, shortcode = sc\<rparr>"

definition visitor_from :: "string option \<Rightarrow> visitor" where
  "visitor_from i = \<lparr>req_ip = i, header_user_agent = Some ''curl/8.5.0'', header_referer = None\<rparr>"

text \<open>A store with one link, \<^verbatim>\<open>abcd\<close>, created at second 0 and valid for five minutes.\<close>

definition example_row :: url_row where
  "example_row = \<lparr>long_url = ''https://example.com/page'', created_at = 0, expiry_at = 300000,
                   last_accessed = None, clicks = 0\<rparr>"

definition example_db :: db where
  "example_db = \<lparr>urls = [''abcd'' \<mapsto> example_row], visits = []\<rparr>"

text \<open>
  Two runs on an empty store: a link \<^verbatim>\<open>abcd\<close> is created and then visited, in
  \<open>run_forward\<close> at increasing clock readings, in \<open>run_backward\<close> with the clock
  set back between the two visits. \<open>stats_forward\<close> and \<open>stats_backward\<close> are
  the statistics the store reports afterwards.
\<close>

definition run_forward :: "(ambient \<times> request) list" where
  "run_forward =
     [(at_time 0 NoFault, PostShorturls (example_body (Some ''abcd'') (JInt 5))),
      (at_time 1000 NoFault, GetCode ''abcd'' (visitor_from (Some ''10.0.0.1''))),
      (at_time 5000 NoFault, GetCode ''ABCD'' (visitor_from (Some ''10.0.0.2''))),
      (at_time 9000 NoFault, GetCode ''abcd'' (visitor_from (Some ''10.0.0.1'')))]"

definition run_backward :: "(ambient \<times> request) list" where
  "run_backward =
     [(at_time 0 NoFault, PostShorturls (example_body (Some ''abcd'') (JInt 5))),
      (at_time 5000 NoFault, GetCode ''abcd'' (visitor_from (Some ''10.0.0.1''))),
      (at_time 1000 NoFault, GetCode ''abcd'' (visitor_from (Some ''10.0.0.2'')))]"

definition stats_forward :: stats where
  "stats_forward =
     \<lparr>stats_code = ''abcd'', longUrl = ''https://example.com/page'',
      createdAt = 0, expiryAt = 300000, totalClicks = 3, uniqueVisitors = 2,
      detailedClicks =
        [\<lparr>click_ts = 1, click_ip = Some ''10.0.0.1'',
            click_user_agent = Some ''curl/8.5.0'', click_referrer = None\<rparr>,
         \<lparr>click_ts = 5, click_ip = Some ''10.0.0.2'',
            click_user_agent = Some ''curl/8.5.0'', click_referrer = None\<rparr>,
         \<lparr>click_ts = 9, click_ip = Some ''10.0.0.1'',
            click_user_agent = Some ''curl/8.5.0'', click_referrer = None\<rparr>]\<rparr>"

definition stats_backward :: stats where
  "stats_backward =
     \<lparr>stats_code = ''abcd'', longUrl = ''https://example.com/page'',
      createdAt = 0, expiryAt = 300000, totalClicks = 2, uniqueVisitors = 2,
      detailedClicks =
        [\<lparr>click_ts = 5, click_ip = Some ''10.0.0.1'',
            click_user_agent = Some ''curl/8.5.0'', click_referrer = None\<rparr>,
         \<lparr>click_ts = 1, click_ip = Some ''10.0.0.2'',
            click_user_agent = Some ''curl/8.5.0'', click_referrer = None\<rparr>]\<rparr>"

text \<open>
  A run in which the link \<^verbatim>\<open>abcd\<close> is created, visited once, and then visited by
  a request whose insert into the visit table fails; \<open>stats_half_recorded\<close> is what
  the store reports afterwards.
\<close>

definition run_half_recorded :: "(ambient \<times> request) list" where
  "run_half_recorded =
     [(at_time 0 NoFault, PostShorturls (example_body (Some ''abcd'') (JInt 5))),
      (at_time 1000 NoFault, GetCode ''abcd'' (visitor_from (Some ''10.0.0.1''))),
      (at_time 5000 InsertVisitFails, GetCode ''abcd'' (visitor_from (Some ''10.0.0.2'')))]"

definition stats_half_recorded :: stats where
  "stats_half_recorded =
     \<lparr>stats_code = ''abcd'', longUrl = ''https://example.com/page'',
      createdAt = 0, expiryAt = 300000, totalClicks = 2, uniqueVisitors = 1,
      detailedClicks =
        [\<lparr>click_ts = 1, click_ip = Some ''10.0.0.1'',
            click_user_agent = Some ''curl/8.5.0'', click_referrer = None\<rparr>]\<rparr>"

section \<open>Validation\<close>

lemma anchored_repeat_iff:
  "anchored_repeat atoms lo hi s =
     (lo \<le> length s \<and> length s \<le> hi \<and> list_all (class_matches atoms) s)"
  by (induction s arbitrary: lo hi) auto

lemma shortcode_class_iff: "class_matches shortcode_class c = (c \<in> set code_alphabet)"
proof -
  obtain n where n: "n = (of_char c :: nat)" by simp
  have eq: "\<And>d. (c = d) = (n = of_char d)" using n by auto
  show ?thesis
    unfolding shortcode_class_def code_alphabet_def
    apply (simp add: eq n[symmetric])
    apply arith
    done
qed

lemma shortcode_regex_test_pattern: "shortcode_regex_test s = matches_code_pattern s"
proof -
  have "class_matches shortcode_class = (\<lambda>c. c \<in> set code_alphabet)"
    by (rule ext) (rule shortcode_class_iff)
  then show ?thesis
    by (simp add: shortcode_regex_test_def matches_code_pattern_def anchored_repeat_iff)
qed

text \<open>
  C8. The test the create route applies to a (normalised, non-empty) shortcode, the
  literal \<^verbatim>\<open>/^[a-zA-Z0-9-_]{4,32}$/\<close>, accepts a string exactly when the string
  has 4 to 32 characters, all of them among A-Z, a-z, 0-9, underscore and hyphen.
  It rejects \<^verbatim>\<open>ab\<close>, accepts \<^verbatim>\<open>valid-code_1\<close> and rejects \<^verbatim>\<open>bad code!\<close>.
\<close>

theorem shortcode_syntax_validation:
  "(shortcode_regex_test s \<longleftrightarrow> matches_code_pattern s)
   \<and> \<not> shortcode_regex_test ''ab''
   \<and> shortcode_regex_test ''valid-code_1''
   \<and> \<not> shortcode_regex_test ''bad code!''"
proof -
  have "\<not> shortcode_regex_test ''ab''" by code_simp
  moreover have "shortcode_regex_test ''valid-code_1''" by code_simp
  moreover have "\<not> shortcode_regex_test ''bad code!''" by code_simp
  ultimately show ?thesis using shortcode_regex_test_pattern by blast
qed

theorem shortcode_syntax_validation_witness:
  "shortcode_regex_test ''Abc_9-z'' \<and> matches_code_pattern ''Abc_9-z''
   \<and> \<not> matches_code_pattern ''abc'' \<and> \<not> matches_code_pattern ''ab cd''"
proof -
  have a: "shortcode_regex_test ''Abc_9-z''" by code_simp
  have b: "\<not> shortcode_regex_test ''abc''" by code_simp
  have c: "\<not> shortcode_regex_test ''ab cd''" by code_simp
  show ?thesis
    using a b c shortcode_syntax_validation [of "''Abc_9-z''"]
      shortcode_syntax_validation [of "''abc''"] shortcode_syntax_validation [of "''ab cd''"]
    by blast
qed

text \<open>
  Where the create route applies the test: to the trimmed, lower-cased shortcode, and
  only when that is not empty.
\<close>

lemma post_shorturls_InvalidCodeSyntax_iff:
  "fst (post_shorturls cfg a body d) = InvalidCodeSyntax \<longleftrightarrow>
     (\<exists>u e. url body = Some u \<and> u \<noteq> [] \<and> isValidHttpUrl (newURL cfg) u = Inr True
        \<and> computeExpiry (clock a) (validityMinutes cfg (validity body)) = Inr e
        \<and> normalizeCode (shortcode body) \<noteq> []
        \<and> \<not> matches_code_pattern (normalizeCode (shortcode body)))"
  by (auto simp: post_shorturls_def shortcode_regex_test_pattern
      split: option.splits sum.splits bool.splits)

text \<open>
  C9. \<^verbatim>\<open>isValidHttpUrl\<close> always returns a boolean, never an exception, and the
  boolean is true exactly when \<^verbatim>\<open>new URL\<close> parses the string and the parsed
  protocol is \<^verbatim>\<open>http:\<close> or \<^verbatim>\<open>https:\<close>; a parse failure and any other
  protocol give false.
\<close>

theorem isValidHttpUrl_total:
  "isValidHttpUrl U s =
     Inr (\<exists>u. U s = Inr u \<and> (protocol u = ''http:'' \<or> protocol u = ''https:''))"
  by (cases "U s") (simp_all add: isValidHttpUrl_def isValidHttpUrl_try_def)

theorem isValidHttpUrl_total_witness:
  "isValidHttpUrl example_URL ''https://example.com/page'' = Inr True
   \<and> isValidHttpUrl example_URL ''ftp://example.com/file'' = Inr False
   \<and> isValidHttpUrl example_URL ''not a url'' = Inr False"
  using isValidHttpUrl_total [of example_URL "''https://example.com/page''"]
    isValidHttpUrl_total [of example_URL "''ftp://example.com/file''"]
    isValidHttpUrl_total [of example_URL "''not a url''"]
  by (simp add: example_URL_def)

section \<open>Requests that change nothing\<close>

lemma normalizeCode_ABCD: "normalizeCode (Some ''ABCD'') = ''abcd''"
  by code_simp

lemma normalizeCode_wxyz: "normalizeCode (Some ''wxyz'') = ''wxyz''"
  by code_simp

text \<open>
  C2. When the row found for the (normalised) code has an \<^verbatim>\<open>expiry_at\<close> earlier
  than the clock, the redirect route answers 410 and returns the database as it
  was: no visit row, no change to \<^verbatim>\<open>clicks\<close> or \<^verbatim>\<open>last_accessed\<close>.
\<close>

theorem expired_not_recorded:
  assumes "findByCode_get d (normalizeCode (Some param)) = Some row"
    and "expiry_at row < clock a"
  shows "get_code a param v d = (Expired, d)"
  using assms by (simp add: get_code_def)

theorem expired_not_recorded_witness:
  "get_code (at_time 300001 NoFault) ''ABCD'' (visitor_from (Some ''10.0.0.1'')) example_db
     = (Expired, example_db)"
proof -
  have f: "findByCode_get example_db (normalizeCode (Some ''ABCD'')) = Some example_row"
    by (simp add: normalizeCode_ABCD findByCode_get_def example_db_def)
  have e: "expiry_at example_row < clock (at_time 300001 NoFault)"
    by (simp add: example_row_def at_time_def)
  show ?thesis by (rule expired_not_recorded [OF f e])
qed

text \<open>
  C6. When the store has no row for the (normalised) code, the redirect route and
  the statistics route both answer 404 and return the database as it was.
\<close>

theorem unknown_code_NotFound:
  assumes "findByCode_get d (normalizeCode (Some param)) = None"
  shows "get_code a param v d = (NotFound, d) \<and> get_shorturls_code param d = (NotFound, d)"
  using assms by (simp add: get_code_def get_shorturls_code_def)

theorem unknown_code_NotFound_witness:
  "get_code (at_time 1000 NoFault) ''wxyz'' (visitor_from None) example_db = (NotFound, example_db)
   \<and> get_shorturls_code ''wxyz'' example_db = (NotFound, example_db)"
proof -
  have f: "findByCode_get example_db (normalizeCode (Some ''wxyz'')) = None"
    by (simp add: normalizeCode_wxyz findByCode_get_def example_db_def)
  show ?thesis by (rule unknown_code_NotFound [OF f])
qed

section \<open>Creating links\<close>

text \<open>
  C10. A \<^verbatim>\<open>validity\<close> that is not a positive integer (zero, a negative number, a
  fraction, a string, any other value) is replaced by
  \<^verbatim>\<open>Number(DEFAULT_VALIDITY)\<close>, which is 30 in an empty environment, and the create
  route then answers exactly as it does when \<^verbatim>\<open>validity\<close> is absent.
\<close>

theorem validity_falls_back_to_default:
  assumes "\<forall>n. v = JInt n \<longrightarrow> n \<le> 0"
  shows "validityMinutes cfg v = DEFAULT_VALIDITY cfg
    \<and> post_shorturls cfg a (body\<lparr>validity := v\<rparr>) d
        = post_shorturls cfg a (body\<lparr>validity := JUndefined\<rparr>) d
    \<and> DEFAULT_VALIDITY (default_config U) = Some 30"
proof -
  have m: "validityMinutes cfg v = DEFAULT_VALIDITY cfg"
    using assms by (cases v) (auto simp: validityMinutes_def)
  have u: "validityMinutes cfg JUndefined = DEFAULT_VALIDITY cfg"
    by (simp add: validityMinutes_def)
  have "post_shorturls cfg a (body\<lparr>validity := v\<rparr>) d
        = post_shorturls cfg a (body\<lparr>validity := JUndefined\<rparr>) d"
    by (simp add: post_shorturls_def chosen_code_def m u
        cong: option.case_cong sum.case_cong bool.case_cong if_cong)
  then show ?thesis using m by (simp add: default_config_def)
qed

lemma example_create_default:
  "fst (post_shorturls example_config (at_time 1000000 NoFault) (example_body None JUndefined) init_db)
     = Created ''http://localhost:8080/v1stgxr'' 2800000"
  by code_simp

theorem validity_falls_back_to_default_witness:
  "fst (post_shorturls example_config (at_time 1000000 NoFault)
          (example_body None (JStr ''5'')) init_db)
     = Created ''http://localhost:8080/v1stgxr'' 2800000
   \<and> fst (post_shorturls example_config (at_time 1000000 NoFault)
          (example_body None (JInt (- 3))) init_db)
     = Created ''http://localhost:8080/v1stgxr'' 2800000
   \<and> fst (post_shorturls example_config (at_time 1000000 NoFault)
          (example_body None JNonInt) init_db)
     = Created ''http://localhost:8080/v1stgxr'' 2800000"
proof -
  have b: "\<And>v. (example_body None JUndefined)\<lparr>validity := v\<rparr> = example_body None v"
    by (simp add: example_body_def)
  have s: "\<forall>n. JStr ''5'' = JInt n \<longrightarrow> n \<le> 0" by simp
  have i: "\<forall>n. JInt (- 3) = JInt n \<longrightarrow> n \<le> 0" by simp
  have f: "\<forall>n. JNonInt = JInt n \<longrightarrow> n \<le> 0" by simp
  show ?thesis
    using validity_falls_back_to_default [OF s, of example_config "at_time 1000000 NoFault"
        "example_body None JUndefined" init_db]
      validity_falls_back_to_default [OF i, of example_config "at_time 1000000 NoFault"
        "example_body None JUndefined" init_db]
      validity_falls_back_to_default [OF f, of example_config "at_time 1000000 NoFault"
        "example_body None JUndefined" init_db]
      example_create_default
    by (simp add: b)
qed

section \<open>Normalised codes\<close>

lemma of_char_lt: "(of_char c :: nat) < 256" by simp

lemma lowerChar_idem: "lowerChar (lowerChar c) = lowerChar c"
  using of_char_lt [of c] by (auto simp: lowerChar_def Let_def)

lemma isWhiteSpace_lowerChar: "isWhiteSpace (lowerChar c) = isWhiteSpace c"
  using of_char_lt [of c] by (auto simp: lowerChar_def Let_def isWhiteSpace_def)

lemma toLowerCase_idem: "toLowerCase (toLowerCase s) = toLowerCase s"
  by (simp add: toLowerCase_def lowerChar_idem)

lemma dropWhile_toLowerCase:
  "dropWhile isWhiteSpace (toLowerCase s) = toLowerCase (dropWhile isWhiteSpace s)"
  by (induction s) (simp_all add: toLowerCase_def isWhiteSpace_lowerChar)

lemma trim_toLowerCase: "trim (toLowerCase s) = toLowerCase (trim s)"
proof -
  have "rev (toLowerCase s) = toLowerCase (rev s)" for s
    by (simp add: toLowerCase_def rev_map)
  then show ?thesis by (simp add: trim_def dropWhile_toLowerCase)
qed

lemma dropWhile_self: "s = [] \<or> \<not> P (hd s) \<Longrightarrow> dropWhile P s = s"
  by (cases s) auto

lemma hd_strip_end:
  assumes "rev (dropWhile P (rev t)) \<noteq> []"
  shows "hd (rev (dropWhile P (rev t))) = hd t"
proof -
  have "rev t = takeWhile P (rev t) @ dropWhile P (rev t)" by simp
  then have "t = rev (dropWhile P (rev t)) @ rev (takeWhile P (rev t))"
    by (metis rev_append rev_rev_ident)
  then show ?thesis using assms by (metis hd_append2)
qed

lemma trim_idem: "trim (trim s) = trim s"
proof -
  define t where "t = dropWhile isWhiteSpace s"
  define u where "u = rev (dropWhile isWhiteSpace (rev t))"
  have t: "t = [] \<or> \<not> isWhiteSpace (hd t)"
    unfolding t_def using hd_dropWhile by blast
  have "u = [] \<or> \<not> isWhiteSpace (hd u)"
  proof (cases "u = []")
    case False
    then have "hd u = hd t" unfolding u_def by (rule hd_strip_end)
    moreover have "t \<noteq> []" using False unfolding u_def by (metis dropWhile.simps(1) rev.simps(1))
    ultimately show ?thesis using t by metis
  qed simp
  then have "dropWhile isWhiteSpace u = u" by (rule dropWhile_self)
  moreover have "rev (dropWhile isWhiteSpace (rev u)) = u"
    unfolding u_def by simp
  ultimately have "rev (dropWhile isWhiteSpace (rev (dropWhile isWhiteSpace u))) = u" by metis
  then show ?thesis unfolding trim_def u_def t_def .
qed

lemma normalizeCode_idem: "normalizeCode (Some (normalizeCode x)) = normalizeCode x"
  by (simp add: normalizeCode_def trim_toLowerCase toLowerCase_idem trim_idem)

lemma alphabet_not_space: "c \<in> set code_alphabet \<Longrightarrow> \<not> isWhiteSpace c"
  by (auto simp: code_alphabet_def isWhiteSpace_def)

lemma trim_no_space: "list_all (\<lambda>c. \<not> isWhiteSpace c) s \<Longrightarrow> trim s = s"
proof -
  assume a: "list_all (\<lambda>c. \<not> isWhiteSpace c) s"
  then have 1: "dropWhile isWhiteSpace s = s" by (cases s) auto
  from a have "list_all (\<lambda>c. \<not> isWhiteSpace c) (rev s)" by (simp add: list_all_iff)
  then have 2: "dropWhile isWhiteSpace (rev s) = rev s" by (cases "rev s") auto
  show ?thesis by (simp add: trim_def 1 2)
qed

lemma normalizeCode_nanoid:
  assumes "nanoid_result g"
  shows "normalizeCode (Some (toLowerCase g)) = toLowerCase g"
proof -
  have "list_all (\<lambda>c. \<not> isWhiteSpace c) g"
    using assms by (auto simp: nanoid_result_def list_all_iff alphabet_not_space)
  then have "trim g = g" by (rule trim_no_space)
  then show ?thesis by (simp add: normalizeCode_def trim_toLowerCase toLowerCase_idem)
qed

lemma normalizeCode_chosen_code:
  "nanoid_result (nanoid7 a) \<Longrightarrow> normalizeCode (Some (chosen_code a body)) = chosen_code a body"
  by (simp add: chosen_code_def Let_def normalizeCode_nanoid normalizeCode_idem)

section \<open>Links are written once\<close>

lemma post_shorturls_keeps_link:
  assumes "urls d c = Some r"
  shows "\<exists>r'. urls (snd (post_shorturls cfg a body d)) c = Some r' \<and> long_url r' = long_url r
           \<and> created_at r' = created_at r \<and> expiry_at r' = expiry_at r"
  using assms
  by (auto simp: post_shorturls_def insertUrl_run_def
      split: option.splits sum.splits bool.splits if_splits)

lemma get_code_keeps_link:
  assumes "urls d c = Some r"
  shows "\<exists>r'. urls (snd (get_code a param v d)) c = Some r' \<and> long_url r' = long_url r
           \<and> created_at r' = created_at r \<and> expiry_at r' = expiry_at r"
  using assms
  by (auto simp: get_code_def Let_def findByCode_get_def updateOnVisit_run_def insertVisit_run_def
      split: option.splits sum.splits if_splits)

lemma get_shorturls_code_db: "snd (get_shorturls_code param d) = d"
  by (simp add: get_shorturls_code_def Let_def split: option.splits)

lemma handle_keeps_link:
  assumes "urls d c = Some r"
  shows "\<exists>r'. urls (snd (handle cfg e d)) c = Some r' \<and> long_url r' = long_url r
           \<and> created_at r' = created_at r \<and> expiry_at r' = expiry_at r"
proof (cases e)
  case (Pair a q)
  show ?thesis
  proof (cases q)
    case (PostShorturls body)
    then show ?thesis using Pair post_shorturls_keeps_link [OF assms] by simp
  next
    case (GetCode param v)
    then show ?thesis using Pair get_code_keeps_link [OF assms] by simp
  next
    case (GetShorturlsCode param)
    then show ?thesis using Pair assms by (simp add: get_shorturls_code_db)
  qed
qed

lemma final_db_keeps_link:
  "urls d c = Some r \<Longrightarrow>
   \<exists>r'. urls (final_db cfg d es) c = Some r' \<and> long_url r' = long_url r
           \<and> created_at r' = created_at r \<and> expiry_at r' = expiry_at r"
proof (induction es arbitrary: d r)
  case Nil
  then show ?case by simp
next
  case (Cons e es)
  from handle_keeps_link [OF Cons.prems, of cfg e]
  obtain r1 where r1: "urls (snd (handle cfg e d)) c = Some r1" "long_url r1 = long_url r"
    "created_at r1 = created_at r" "expiry_at r1 = expiry_at r" by blast
  from Cons.IH [OF r1(1)] r1 show ?case by auto
qed

lemma post_shorturls_Created:
  assumes "url body = Some u" "u \<noteq> []" "isValidHttpUrl (newURL cfg) u = Inr True"
    and "computeExpiry (clock a) (validityMinutes cfg (validity body)) = Inr e"
    and "normalizeCode (shortcode body) = [] \<or> shortcode_regex_test (normalizeCode (shortcode body))"
    and "urls d (chosen_code a body) = None"
    and "fault a \<noteq> InsertUrlFails"
  shows "post_shorturls cfg a body d =
     (Created (BASE_URL cfg @ ''/'' @ chosen_code a body) e,
      d\<lparr>urls := (urls d)(chosen_code a body \<mapsto>
             \<lparr>long_url = u, created_at = datetime_now (clock a), expiry_at = e,
              last_accessed = None, clicks = 0\<rparr>)\<rparr>)"
  using assms by (auto simp: post_shorturls_def insertUrl_run_def)

lemma get_code_Redirect:
  assumes "urls d (normalizeCode (Some param)) = Some r"
    and "clock a \<le> expiry_at r" and "fault a = NoFault"
  shows "fst (get_code a param v d) = Redirect (long_url r)"
  using assms
  by (simp add: get_code_def Let_def findByCode_get_def updateOnVisit_run_def insertVisit_run_def)

text \<open>
  C1, as the code has it. A create request with a valid http or https URL is answered
  201 when its validity gives a representable expiry date, its shortcode is absent or
  passes the syntax test, the resulting code is not yet in the store and the insert
  does not fail. The code at the end of the returned short link then redirects to
  exactly the submitted URL, after any further requests, at every clock reading up
  to the expiry, as long as the two analytics writes of that redirect succeed.
\<close>

theorem create_then_resolve:
  assumes "url body = Some u" and "u \<noteq> []" and "isValidHttpUrl (newURL cfg) u = Inr True"
    and "computeExpiry (clock a) (validityMinutes cfg (validity body)) = Inr e"
    and "normalizeCode (shortcode body) = [] \<or> shortcode_regex_test (normalizeCode (shortcode body))"
    and "nanoid_result (nanoid7 a)"
    and "urls d (chosen_code a body) = None"
    and "fault a \<noteq> InsertUrlFails"
  shows "fst (post_shorturls cfg a body d) = Created (BASE_URL cfg @ ''/'' @ chosen_code a body) e
    \<and> (\<forall>es a' v. clock a' \<le> e \<and> fault a' = NoFault \<longrightarrow>
          fst (get_code a' (chosen_code a body) v
                 (final_db cfg (snd (post_shorturls cfg a body d)) es)) = Redirect u)"
proof -
  let ?c = "chosen_code a body"
  let ?d1 = "snd (post_shorturls cfg a body d)"
  note created = post_shorturls_Created [OF assms(1-5) assms(7,8)]
  have link: "\<exists>r. urls ?d1 ?c = Some r \<and> long_url r = u \<and> expiry_at r = e"
    by (simp add: created)
  have n: "normalizeCode (Some ?c) = ?c"
    using assms(6) by (rule normalizeCode_chosen_code)
  have "fst (get_code a' ?c v (final_db cfg ?d1 es)) = Redirect u"
    if "clock a' \<le> e" "fault a' = NoFault" for es a' v
  proof -
    from link obtain r where r: "urls ?d1 ?c = Some r" "long_url r = u" "expiry_at r = e" by blast
    from final_db_keeps_link [OF r(1), of cfg es] r
    obtain r' where r': "urls (final_db cfg ?d1 es) ?c = Some r'" "long_url r' = u" "expiry_at r' = e"
      by auto
    have "urls (final_db cfg ?d1 es) (normalizeCode (Some ?c)) = Some r'" using r'(1) n by simp
    from get_code_Redirect [OF this, of a' v] that r' show ?thesis by simp
  qed
  then show ?thesis by (simp add: created)
qed

theorem create_then_resolve_witness:
  "fst (post_shorturls example_config (at_time 1000000 NoFault)
          (example_body (Some ''My-Code'') (JInt 5)) init_db)
     = Created ''http://localhost:8080/my-code'' 1300000
   \<and> fst (get_code (at_time 1300000 NoFault) ''my-code'' (visitor_from (Some ''10.0.0.1''))
            (final_db example_config
               (snd (post_shorturls example_config (at_time 1000000 NoFault)
                       (example_body (Some ''My-Code'') (JInt 5)) init_db))
               (tl run_forward)))
     = Redirect ''https://example.com/page''"
proof -
  let ?a = "at_time 1000000 NoFault"
  let ?b = "example_body (Some ''My-Code'') (JInt 5)"
  have h1: "url ?b = Some ''https://example.com/page''" by (simp add: example_body_def)
  have h2: "''https://example.com/page'' \<noteq> []" by simp
  have h3: "isValidHttpUrl (newURL example_config) ''https://example.com/page'' = Inr True"
    by code_simp
  have h4: "computeExpiry (clock ?a) (validityMinutes example_config (validity ?b)) = Inr 1300000"
    by code_simp
  have h5: "normalizeCode (shortcode ?b) = [] \<or> shortcode_regex_test (normalizeCode (shortcode ?b))"
    by code_simp
  have h6: "nanoid_result (nanoid7 ?a)" by code_simp
  have c: "chosen_code ?a ?b = ''my-code''" by code_simp
  have h7: "urls init_db (chosen_code ?a ?b) = None" by (simp add: init_db_def)
  have h8: "fault ?a \<noteq> InsertUrlFails" by (simp add: at_time_def)
  have t: "clock (at_time 1300000 NoFault) \<le> 1300000 \<and> fault (at_time 1300000 NoFault) = NoFault"
    by (simp add: at_time_def)
  from create_then_resolve [OF h1 h2 h3 h4 h5 h6 h7 h8] t
  show ?thesis
    unfolding c by (simp add: example_config_def default_config_def)
qed

text \<open>
  C1 as stated fails: with a valid URL the create route answers 400 for the shortcode
  \<^verbatim>\<open>ab\<close>, 409 for a shortcode that is taken, throws for a validity whose expiry
  is beyond the range of dates, and answers 409 when \<^verbatim>\<open>nanoid\<close> returns a code
  that is in use.
\<close>

theorem valid_url_create_rejected:
  "isValidHttpUrl (newURL example_config) ''https://example.com/page'' = Inr True
   \<and> fst (post_shorturls example_config (at_time 1000000 NoFault)
            (example_body (Some ''ab'') JUndefined) init_db) = InvalidCodeSyntax
   \<and> fst (post_shorturls example_config (at_time 1000000 NoFault)
            (example_body (Some ''abcd'') JUndefined) example_db) = DuplicateCode
   \<and> fst (post_shorturls example_config (at_time 1000000 NoFault)
            (example_body None (JInt 1000000000000)) init_db) = Uncaught RangeError
   \<and> fst (post_shorturls example_config (at_time 2000000 NoFault) (example_body None JUndefined)
            (snd (post_shorturls example_config (at_time 1000000 NoFault)
                    (example_body None JUndefined) init_db))) = DuplicateCode"
  by code_simp

text \<open>
  C3. After a create request with an explicit shortcode has succeeded, and after any
  further requests, a create request whose shortcode normalises to the same code and
  that reaches the insert (valid URL, representable expiry, no other storage failure)
  is answered 409 and returns the database as it was; the row of the first request
  still holds its URL, creation time and expiry.
\<close>

theorem duplicate_shortcode_rejected:
  assumes "fst (post_shorturls cfg a1 b1 d) = Created l1 e1"
    and "normalizeCode (shortcode b1) \<noteq> []"
    and "normalizeCode (shortcode b2) = normalizeCode (shortcode b1)"
    and "url b2 = Some u2" and "u2 \<noteq> []" and "isValidHttpUrl (newURL cfg) u2 = Inr True"
    and "computeExpiry (clock a2) (validityMinutes cfg (validity b2)) = Inr e2"
    and "fault a2 \<noteq> InsertUrlFails"
    and "d2 = final_db cfg (snd (post_shorturls cfg a1 b1 d)) es"
  shows "post_shorturls cfg a2 b2 d2 = (DuplicateCode, d2)
    \<and> (\<exists>r. urls d2 (normalizeCode (shortcode b1)) = Some r \<and> url b1 = Some (long_url r)
           \<and> created_at r = datetime_now (clock a1) \<and> expiry_at r = e1)"
proof -
  let ?c = "normalizeCode (shortcode b1)"
  let ?d1 = "snd (post_shorturls cfg a1 b1 d)"
  have c1: "chosen_code a1 b1 = ?c" using assms(2) by (simp add: chosen_code_def)
  have c2: "chosen_code a2 b2 = ?c" using assms(2,3) by (simp add: chosen_code_def)
  from assms(1) have ok: "shortcode_regex_test ?c"
    using assms(2)
    by (auto simp: post_shorturls_def split: option.splits sum.splits bool.splits if_splits)
  from assms(1) have "\<exists>r. urls ?d1 ?c = Some r \<and> url b1 = Some (long_url r)
           \<and> created_at r = datetime_now (clock a1) \<and> expiry_at r = e1"
    by (auto simp: post_shorturls_def insertUrl_run_def c1
        split: option.splits sum.splits bool.splits if_splits)
  then obtain r where r: "urls ?d1 ?c = Some r" "url b1 = Some (long_url r)"
     "created_at r = datetime_now (clock a1)" "expiry_at r = e1" by blast
  from final_db_keeps_link [OF r(1), of cfg es] r assms(9)
  obtain r' where r': "urls d2 ?c = Some r'" "url b1 = Some (long_url r')"
     "created_at r' = datetime_now (clock a1)" "expiry_at r' = e1" by auto
  have "post_shorturls cfg a2 b2 d2 = (DuplicateCode, d2)"
    using assms(3-8) ok r'(1) by (simp add: post_shorturls_def insertUrl_run_def c2)
  then show ?thesis using r' by blast
qed

theorem duplicate_shortcode_rejected_witness:
  "post_shorturls example_config (at_time 7000 NoFault) (example_body (Some '' ABCD '') JNull)
      (final_db example_config
         (snd (post_shorturls example_config (at_time 0 NoFault)
                 (example_body (Some ''abcd'') (JInt 5)) init_db))
         (tl run_forward))
    = (DuplicateCode,
       final_db example_config
         (snd (post_shorturls example_config (at_time 0 NoFault)
                 (example_body (Some ''abcd'') (JInt 5)) init_db))
         (tl run_forward))"
proof -
  let ?b1 = "example_body (Some ''abcd'') (JInt 5)"
  let ?b2 = "example_body (Some '' ABCD '') JNull"
  have h1: "fst (post_shorturls example_config (at_time 0 NoFault) ?b1 init_db)
              = Created ''http://localhost:8080/abcd'' 300000"
    by code_simp
  have h2: "normalizeCode (shortcode ?b1) \<noteq> []" by code_simp
  have h3: "normalizeCode (shortcode ?b2) = normalizeCode (shortcode ?b1)" by code_simp
  have h4: "url ?b2 = Some ''https://example.com/page''" by (simp add: example_body_def)
  have h5: "''https://example.com/page'' \<noteq> []" by simp
  have h6: "isValidHttpUrl (newURL example_config) ''https://example.com/page'' = Inr True"
    by code_simp
  have h7: "computeExpiry (clock (at_time 7000 NoFault))
              (validityMinutes example_config (validity ?b2)) = Inr 1807000"
    by code_simp
  have h8: "fault (at_time 7000 NoFault) \<noteq> InsertUrlFails" by (simp add: at_time_def)
  from duplicate_shortcode_rejected [OF h1 h2 h3 h4 h5 h6 h7 h8 refl]
  show ?thesis by simp
qed

section \<open>Failing analytics writes\<close>

text \<open>
  C4, as the code has it. When the code is found and not expired and one of the two
  analytics statements fails, the exception leaves the handler: no redirect is sent,
  the request ends in the framework's 500 response and no visit row is written. If
  the counter update is the one that fails the database is unchanged; if it is the
  insert into the visit table, the counter update has already been made.
\<close>

theorem analytics_failure_no_redirect:
  assumes "findByCode_get d (normalizeCode (Some param)) = Some row"
    and "\<not> expiry_at row < clock a"
    and "fault a = UpdateOnVisitFails \<or> fault a = InsertVisitFails"
  shows "fst (get_code a param v d) = Uncaught SqliteError
    \<and> visits (snd (get_code a param v d)) = visits d
    \<and> (fault a = UpdateOnVisitFails \<longrightarrow> snd (get_code a param v d) = d)
    \<and> (fault a = InsertVisitFails \<longrightarrow>
         urls (snd (get_code a param v d)) (normalizeCode (Some param))
           = Some (row\<lparr>clicks := clicks row + 1, last_accessed := Some (datetime_now (clock a))\<rparr>))"
  using assms
  by (auto simp: get_code_def Let_def findByCode_get_def updateOnVisit_run_def insertVisit_run_def)

theorem analytics_failure_no_redirect_witness:
  "fst (get_code (at_time 1000 UpdateOnVisitFails) ''ABCD'' (visitor_from None) example_db)
     = Uncaught SqliteError
   \<and> snd (get_code (at_time 1000 UpdateOnVisitFails) ''ABCD'' (visitor_from None) example_db)
     = example_db
   \<and> urls (snd (get_code (at_time 1000 InsertVisitFails) ''ABCD'' (visitor_from None) example_db))
        ''abcd''
     = Some (example_row\<lparr>clicks := 1, last_accessed := Some 1\<rparr>)
   \<and> visits (snd (get_code (at_time 1000 InsertVisitFails) ''ABCD'' (visitor_from None) example_db))
     = []"
proof -
  have f: "findByCode_get example_db (normalizeCode (Some ''ABCD'')) = Some example_row"
    by (simp add: normalizeCode_ABCD findByCode_get_def example_db_def)
  have e: "\<not> expiry_at example_row < clock (at_time 1000 UpdateOnVisitFails)"
    by (simp add: example_row_def at_time_def)
  have u: "fault (at_time 1000 UpdateOnVisitFails) = UpdateOnVisitFails
           \<or> fault (at_time 1000 UpdateOnVisitFails) = InsertVisitFails"
    by (simp add: at_time_def)
  have e': "\<not> expiry_at example_row < clock (at_time 1000 InsertVisitFails)"
    by (simp add: example_row_def at_time_def)
  have u': "fault (at_time 1000 InsertVisitFails) = UpdateOnVisitFails
           \<or> fault (at_time 1000 InsertVisitFails) = InsertVisitFails"
    by (simp add: at_time_def)
  from analytics_failure_no_redirect [OF f e u, of "visitor_from None"]
    analytics_failure_no_redirect [OF f e' u', of "visitor_from None"]
  show ?thesis
    by (simp add: at_time_def normalizeCode_ABCD datetime_now_def example_row_def example_db_def)
qed

text \<open>
  C4 as stated fails: the link \<^verbatim>\<open>abcd\<close> is in the store and not expired, the
  insert into the visit table fails, and the answer is the uncaught exception, not the
  redirect.
\<close>

theorem analytics_failure_blocks_redirect:
  "findByCode_get example_db (normalizeCode (Some ''abcd'')) = Some example_row
   \<and> \<not> expiry_at example_row < clock (at_time 1000 InsertVisitFails)
   \<and> fst (get_code (at_time 1000 InsertVisitFails) ''abcd'' (visitor_from (Some ''10.0.0.1''))
            example_db) = Uncaught SqliteError
   \<and> fst (get_code (at_time 1000 InsertVisitFails) ''abcd'' (visitor_from (Some ''10.0.0.1''))
            example_db) \<noteq> Redirect (long_url example_row)"
  by code_simp

section \<open>Statistics\<close>

lemma post_shorturls_visits: "visits (snd (post_shorturls cfg a body d)) = visits d"
  by (auto simp: post_shorturls_def insertUrl_run_def
      split: option.splits sum.splits bool.splits if_splits)

lemma get_code_visits_for:
  "visits_for (snd (get_code a param v d)) c =
     visits_for d c @ map (visit_of c) (redirected_for c (a, GetCode param v) (fst (get_code a param v d)))"
  by (auto simp: get_code_def Let_def findByCode_get_def updateOnVisit_run_def insertVisit_run_def
      visits_for_def visit_of_def split: option.splits)

lemma handle_visits_for:
  "visits_for (snd (handle cfg e d)) c =
     visits_for d c @ map (visit_of c) (redirected_for c e (fst (handle cfg e d)))"
proof (cases e)
  case (Pair a q)
  show ?thesis
  proof (cases q)
    case (PostShorturls body)
    then show ?thesis using Pair by (simp add: visits_for_def post_shorturls_visits)
  next
    case (GetCode param v)
    then show ?thesis using Pair get_code_visits_for by simp
  next
    case (GetShorturlsCode param)
    then show ?thesis using Pair by (simp add: get_shorturls_code_db)
  qed
qed

lemma final_db_visits_for:
  "visits_for (final_db cfg d es) c = visits_for d c @ map (visit_of c) (redirects cfg d es c)"
proof (induction es arbitrary: d)
  case Nil
  then show ?case by simp
next
  case (Cons e es)
  show ?case by (simp add: Cons.IH handle_visits_for)
qed

lemma redirected_for_clock:
  "x \<in> set (redirected_for c e r) \<Longrightarrow> fst x = fst e"
  by (cases e, cases "snd e") (auto split: if_splits)

lemma redirects_clocks:
  "x \<in> set (redirects cfg d es c) \<Longrightarrow> fst x \<in> fst ` set es"
proof (induction es arbitrary: d)
  case Nil
  then show ?case by simp
next
  case (Cons e es)
  then show ?case by (auto dest: redirected_for_clock)
qed

lemma redirected_for_short: "length (redirected_for c e r) \<le> 1"
  by (cases e, cases "snd e") auto

lemma sorted_redirects:
  "sorted (map (\<lambda>e. clock (fst e)) es) \<Longrightarrow>
   sorted (map (\<lambda>x. clock (fst x)) (redirects cfg d es c))"
proof (induction es arbitrary: d)
  case Nil
  then show ?case by simp
next
  case (Cons e es)
  have tl: "sorted (map (\<lambda>x. clock (fst x)) (redirects cfg (snd (handle cfg e d)) es c))"
    using Cons by simp
  have le: "clock (fst e) \<le> clock (fst y)" if "y \<in> set (redirects cfg (snd (handle cfg e d)) es c)" for y
  proof -
    from redirects_clocks [OF that] obtain e' where "e' \<in> set es" "fst y = fst e'" by auto
    then show ?thesis using Cons.prems by auto
  qed
  have hd: "sorted (map (\<lambda>x. clock (fst x)) (redirected_for c e (fst (handle cfg e d))))"
    using redirected_for_short [of c e "fst (handle cfg e d)"]
    by (cases "redirected_for c e (fst (handle cfg e d))") auto
  show ?case
    using tl hd le by (auto simp: sorted_append dest!: redirected_for_clock)
qed

lemma visits_for_init: "visits_for init_db c = []"
  by (simp add: visits_for_def init_db_def)

lemma datetime_now_mono: "s \<le> t \<Longrightarrow> datetime_now s \<le> datetime_now t"
  by (simp add: datetime_now_def zdiv_mono1)

lemma stats_run_forward:
  "fst (get_shorturls_code ''abcd'' (final_db example_config init_db run_forward))
     = Stats stats_forward"
  by code_simp

text \<open>
  C5, as the code has it. On a store that started empty, the detailed click list of
  the statistics holds the visits of the code's redirects in the order in which the
  redirects were served; their timestamps are ascending whenever the clock readings of
  the requests of the run never decrease.
\<close>

theorem detailed_clicks_in_request_order:
  assumes "fst (get_shorturls_code param (final_db cfg init_db es)) = Stats st"
  shows "detailedClicks st =
           map (\<lambda>x. click_of (visit_of (normalizeCode (Some param)) x))
             (redirects cfg init_db es (normalizeCode (Some param)))
    \<and> (sorted (map (\<lambda>e. clock (fst e)) es) \<longrightarrow> sorted (map click_ts (detailedClicks st)))"
proof -
  let ?c = "normalizeCode (Some param)"
  let ?rs = "redirects cfg init_db es ?c"
  have "detailedClicks st = getVisits_all (final_db cfg init_db es) ?c"
    using assms by (auto simp: get_shorturls_code_def Let_def split: option.splits)
  also have "\<dots> = map click_of (visits_for (final_db cfg init_db es) ?c)"
    by (simp add: getVisits_all_def visits_for_def)
  also have "\<dots> = map (\<lambda>x. click_of (visit_of ?c x)) ?rs"
    by (simp add: final_db_visits_for visits_for_init)
  finally have eq: "detailedClicks st = map (\<lambda>x. click_of (visit_of ?c x)) ?rs" .
  have "sorted (map click_ts (detailedClicks st))" if "sorted (map (\<lambda>e. clock (fst e)) es)"
  proof -
    have "sorted (map (\<lambda>x. clock (fst x)) ?rs)" using that by (rule sorted_redirects)
    then have "sorted_wrt (\<lambda>x y. clock (fst x) \<le> clock (fst y)) ?rs"
      by (simp add: sorted_map)
    then have "sorted_wrt (\<lambda>x y. datetime_now (clock (fst x)) \<le> datetime_now (clock (fst y))) ?rs"
      by (rule sorted_wrt_mono_rel [rotated]) (simp add: datetime_now_mono)
    then have "sorted (map (\<lambda>x. datetime_now (clock (fst x))) ?rs)"
      by (simp add: sorted_map)
    moreover have "map click_ts (detailedClicks st) = map (\<lambda>x. datetime_now (clock (fst x))) ?rs"
      by (simp add: eq click_of_def visit_of_def)
    ultimately show ?thesis by simp
  qed
  with eq show ?thesis by blast
qed

theorem detailed_clicks_in_request_order_witness:
  "sorted (map click_ts (detailedClicks stats_forward))
   \<and> map click_ts (detailedClicks stats_forward) = [1, 5, 9]"
proof -
  have s: "sorted (map (\<lambda>e. clock (fst e)) run_forward)"
    by (simp add: run_forward_def at_time_def)
  from detailed_clicks_in_request_order [OF stats_run_forward] s
  have "sorted (map click_ts (detailedClicks stats_forward))" by blast
  moreover have "map click_ts (detailedClicks stats_forward) = [1, 5, 9]"
    by (simp add: stats_forward_def)
  ultimately show ?thesis by blast
qed

text \<open>
  C5 as stated fails: when the clock is set back between two redirects, the click list
  has the later timestamp first.
\<close>

theorem detailed_clicks_not_ascending:
  "fst (get_shorturls_code ''abcd'' (final_db example_config init_db run_backward))
     = Stats stats_backward
   \<and> map click_ts (detailedClicks stats_backward) = [5, 1]
   \<and> \<not> sorted (map click_ts (detailedClicks stats_backward))"
  by code_simp

lemma post_shorturls_clicks_of:
  "clicks_of (snd (post_shorturls cfg a body d)) c = clicks_of d c"
  by (auto simp: post_shorturls_def insertUrl_run_def clicks_of_def
      split: option.splits sum.splits bool.splits if_splits)

lemma get_code_clicks_of:
  "clicks_of (snd (get_code a param v d)) c =
     clicks_of d c
     + int (length (redirected_for c (a, GetCode param v) (fst (get_code a param v d))))
     + int (length (half_recorded_for c (a, GetCode param v) (fst (get_code a param v d))))"
proof (cases "findByCode_get d (normalizeCode (Some param))")
  case None
  then show ?thesis by (simp add: get_code_def)
next
  case (Some row)
  show ?thesis
  proof (cases "expiry_at row < clock a")
    case True
    then show ?thesis using Some by (simp add: get_code_def)
  next
    case False
    then show ?thesis
      using Some
      by (cases "fault a")
        (auto simp: get_code_def Let_def findByCode_get_def updateOnVisit_run_def
          insertVisit_run_def clicks_of_def)
  qed
qed

lemma handle_clicks_of:
  "clicks_of (snd (handle cfg e d)) c =
     clicks_of d c
     + int (length (redirected_for c e (fst (handle cfg e d))))
     + int (length (half_recorded_for c e (fst (handle cfg e d))))"
proof (cases e)
  case (Pair a q)
  show ?thesis
  proof (cases q)
    case (PostShorturls body)
    then show ?thesis using Pair by (simp add: post_shorturls_clicks_of)
  next
    case (GetCode param v)
    then show ?thesis using Pair get_code_clicks_of [of a param v d c] by simp
  next
    case (GetShorturlsCode param)
    then show ?thesis using Pair by (simp add: get_shorturls_code_db)
  qed
qed

lemma final_db_clicks_of:
  "clicks_of (final_db cfg d es) c =
     clicks_of d c + int (length (redirects cfg d es c)) + int (length (half_recorded cfg d es c))"
proof (induction es arbitrary: d)
  case Nil
  then show ?case by simp
next
  case (Cons e es)
  show ?case by (simp add: Cons.IH handle_clicks_of)
qed

lemma clicks_of_init: "clicks_of init_db c = 0"
  by (simp add: clicks_of_def init_db_def)

lemma stats_run_half_recorded:
  "fst (get_shorturls_code ''abcd'' (final_db example_config init_db run_half_recorded))
     = Stats stats_half_recorded"
  by code_simp

lemma set_map_filter_ip:
  "set (List.map_filter ip (map (visit_of c) rs)) = {i. Some i \<in> set (map (\<lambda>x. req_ip (snd x)) rs)}"
  by (induction rs) (auto simp: List.map_filter_def visit_of_def)

text \<open>
  C7, as the code has it. On a store that started empty, after any run of requests,
  the statistics of a code report as unique visitors the number of distinct non-null
  IP addresses among the redirects served for that code, never more than the number
  of those redirects, and as total clicks the number of those redirects plus the number
  of redirect requests for the code that failed in the insert into the visit table
  after their counter update. The total is the number of redirects served when the
  run has no such failed request.
\<close>

theorem stats_count_redirects:
  assumes "fst (get_shorturls_code param (final_db cfg init_db es)) = Stats st"
  shows "totalClicks st
           = int (length (redirects cfg init_db es (normalizeCode (Some param))))
             + int (length (half_recorded cfg init_db es (normalizeCode (Some param))))
    \<and> (half_recorded cfg init_db es (normalizeCode (Some param)) = [] \<longrightarrow>
          totalClicks st = int (length (redirects cfg init_db es (normalizeCode (Some param)))))
    \<and> uniqueVisitors st =
        card {i. Some i \<in> set (map (\<lambda>x. req_ip (snd x))
                                 (redirects cfg init_db es (normalizeCode (Some param))))}
    \<and> uniqueVisitors st \<le> length (redirects cfg init_db es (normalizeCode (Some param)))"
proof -
  define c where "c = normalizeCode (Some param)"
  define d where "d = final_db cfg init_db es"
  define rs where "rs = redirects cfg init_db es c"
  define hs where "hs = half_recorded cfg init_db es c"
  have vf: "visits_for d c = map (visit_of c) rs"
    unfolding d_def rs_def by (simp add: final_db_visits_for visits_for_init)
  from assms obtain r where r: "urls d c = Some r" "totalClicks st = clicks r"
     "uniqueVisitors st = countUniqueIPs_get d c"
    unfolding d_def c_def
    by (auto simp: get_shorturls_code_def Let_def findByCode_get_def split: option.splits)
  have "clicks_of d c = int (length rs) + int (length hs)"
    unfolding d_def rs_def hs_def by (simp add: final_db_clicks_of clicks_of_init)
  moreover have "clicks_of d c = clicks r" using r(1) by (simp add: clicks_of_def)
  ultimately have total: "totalClicks st = int (length rs) + int (length hs)"
    using r(2) by simp
  have "countUniqueIPs_get d c = card (set (List.map_filter ip (visits_for d c)))"
    by (simp add: countUniqueIPs_get_def visits_for_def length_remdups_card_conv)
  then have uniq: "countUniqueIPs_get d c = card {i. Some i \<in> set (map (\<lambda>x. req_ip (snd x)) rs)}"
    by (simp only: vf set_map_filter_ip)
  have "length (remdups (List.map_filter ip (visits_for d c)))
          \<le> length (List.map_filter ip (visits_for d c))"
    by (rule length_remdups_leq)
  also have "\<dots> \<le> length (visits_for d c)"
    by (simp add: List.map_filter_def)
  finally have "countUniqueIPs_get d c \<le> length rs"
    by (simp add: countUniqueIPs_get_def visits_for_def [symmetric] vf)
  with total uniq r(3) show ?thesis unfolding rs_def hs_def c_def by simp
qed

theorem stats_count_redirects_witness:
  "totalClicks stats_forward = 3 \<and> uniqueVisitors stats_forward = 2
   \<and> length (redirects example_config init_db run_forward (normalizeCode (Some ''abcd''))) = 3
   \<and> card {i. Some i \<in> set (map (\<lambda>x. req_ip (snd x))
        (redirects example_config init_db run_forward (normalizeCode (Some ''abcd''))))} = 2
   \<and> totalClicks stats_half_recorded
        = int (length (redirects example_config init_db run_half_recorded
                         (normalizeCode (Some ''abcd''))))
          + int (length (half_recorded example_config init_db run_half_recorded
                           (normalizeCode (Some ''abcd''))))"
proof -
  have h: "half_recorded example_config init_db run_forward (normalizeCode (Some ''abcd'')) = []"
    by code_simp
  from stats_count_redirects [OF stats_run_forward] h
  have t: "totalClicks stats_forward
             = int (length (redirects example_config init_db run_forward
                              (normalizeCode (Some ''abcd''))))"
    and u: "uniqueVisitors stats_forward
             = card {i. Some i \<in> set (map (\<lambda>x. req_ip (snd x))
                 (redirects example_config init_db run_forward (normalizeCode (Some ''abcd''))))}"
    by blast+
  have v: "totalClicks stats_forward = 3" "uniqueVisitors stats_forward = 2"
    by (simp_all add: stats_forward_def)
  from stats_count_redirects [OF stats_run_half_recorded]
  have w: "totalClicks stats_half_recorded
        = int (length (redirects example_config init_db run_half_recorded
                         (normalizeCode (Some ''abcd''))))
          + int (length (half_recorded example_config init_db run_half_recorded
                           (normalizeCode (Some ''abcd''))))"
    by blast
  from t u v w show ?thesis by simp
qed

text \<open>
  C7 as stated fails: after the link \<^verbatim>\<open>abcd\<close> has been created and visited once,
  a second redirect request for it gets past the counter update and fails in the
  insert into the visit table. The run has one redirect served for the code, and the
  statistics report two total clicks.
\<close>

theorem stats_count_half_recorded:
  "fst (get_shorturls_code ''abcd'' (final_db example_config init_db run_half_recorded))
     = Stats stats_half_recorded
   \<and> redirects example_config init_db run_half_recorded ''abcd''
     = [(at_time 1000 NoFault, visitor_from (Some ''10.0.0.1''))]
   \<and> fst (handle example_config (last run_half_recorded)
            (final_db example_config init_db (butlast run_half_recorded)))
     = Uncaught SqliteError
   \<and> totalClicks stats_half_recorded = 2
   \<and> totalClicks stats_half_recorded
        \<noteq> int (length (redirects example_config init_db run_half_recorded ''abcd''))"
  by code_simp

end
